theory Spec2Isabelle
  imports Main
begin

section \<open>JavaScript strings and arrays\<close>

text \<open>
  A JavaScript string is modelled as a \<^typ>\<open>string\<close>: one \<^typ>\<open>char\<close> per code unit,
  for code units below 256 (the Latin-1 range, which contains every character the
  heuristics compare against). An array is a list. A read that may give
  \<^verbatim>\<open>undefined\<close> returns an option, with \<open>None\<close> for \<^verbatim>\<open>undefined\<close>.
\<close>

definition nl :: char where
  "nl = CHR 0x0A"

definition comma :: char where
  "comma = CHR 0x2C"

text \<open>\<^verbatim>\<open>String.prototype.trim\<close>: the white space and line terminators below 256.\<close>

definition isWhiteSpace :: "char \<Rightarrow> bool" where
  "isWhiteSpace c \<longleftrightarrow>
     c \<in> set [CHR 0x09, CHR 0x0A, CHR 0x0B, CHR 0x0C, CHR 0x0D, CHR 0x20, CHR 0xA0]"

definition trim :: "string \<Rightarrow> string" where
  "trim s = rev (dropWhile isWhiteSpace (rev (dropWhile isWhiteSpace s)))"

text \<open>\<^verbatim>\<open>String.prototype.toLowerCase\<close> on code units below 256.\<close>

definition toLowerChar :: "char \<Rightarrow> char" where
  "toLowerChar c =
     (let n = (of_char c :: nat)
      in if (65 \<le> n \<and> n \<le> 90) \<or> (192 \<le> n \<and> n \<le> 222 \<and> n \<noteq> 215)
         then char_of (n + 32) else c)"

definition toLowerCase :: "string \<Rightarrow> string" where
  "toLowerCase s = map toLowerChar s"

fun startsWith :: "string \<Rightarrow> string \<Rightarrow> bool" where
  "startsWith s [] = True"
| "startsWith [] (p # ps) = False"
| "startsWith (c # cs) (p # ps) = (c = p \<and> startsWith cs ps)"

text \<open>\<^verbatim>\<open>s.includes(sub)\<close>: \<open>sub\<close> occurs in \<open>s\<close> as a contiguous substring.\<close>

fun str_includes :: "string \<Rightarrow> string \<Rightarrow> bool" where
  "str_includes [] sub = (sub = [])"
| "str_includes (c # cs) sub = (startsWith (c # cs) sub \<or> str_includes cs sub)"

text \<open>\<^verbatim>\<open>s.split(sep)\<close> for a one-character separator: never the empty array.\<close>

fun str_split :: "char \<Rightarrow> string \<Rightarrow> string list" where
  "str_split sep [] = [[]]"
| "str_split sep (c # cs) =
     (if c = sep then [] # str_split sep cs
      else (case str_split sep cs of
              [] \<Rightarrow> [[c]]
            | f # fs \<Rightarrow> (c # f) # fs))"

text \<open>\<^verbatim>\<open>arr.join(sep)\<close>.\<close>

fun join :: "string \<Rightarrow> string list \<Rightarrow> string" where
  "join sep [] = []"
| "join sep [x] = x"
| "join sep (x # y # ys) = x @ sep @ join sep (y # ys)"

text \<open>\<^verbatim>\<open>arr.slice(start, end)\<close> for non-negative bounds: empty when \<open>end \<le> start\<close>.\<close>

definition slice :: "nat \<Rightarrow> nat \<Rightarrow> 'a list \<Rightarrow> 'a list" where
  "slice start end xs = take (end - start) (drop start xs)"

text \<open>\<^verbatim>\<open>arr[i]\<close>: \<^verbatim>\<open>undefined\<close> out of range.\<close>

definition at :: "'a list \<Rightarrow> nat \<Rightarrow> 'a option" where
  "at xs i = (if i < length xs then Some (xs ! i) else None)"

text \<open>\<^verbatim>\<open>v || d\<close> on a string that may be undefined: the empty string is falsy too.\<close>

definition orElse :: "string option \<Rightarrow> string \<Rightarrow> string" where
  "orElse v d = (case v of None \<Rightarrow> d | Some s \<Rightarrow> if s = [] then d else s)"

text \<open>A template literal's rendering of a number: decimal digits, a minus sign if negative.\<close>

definition digit :: "nat \<Rightarrow> char" where
  "digit d = char_of (48 + d)"

fun showNat :: "nat \<Rightarrow> string" where
  "showNat n = (if n < 10 then [digit n] else showNat (n div 10) @ [digit (n mod 10)])"

declare showNat.simps [simp del]

definition showInt :: "int \<Rightarrow> string" where
  "showInt i = (if i < 0 then CHR ''-'' # showNat (nat (- i)) else showNat (nat i))"


section \<open>Data model\<close>

record ChannelProfile =
  name :: string
  index :: nat
  uniqueValues :: nat
  transitions :: nat
  isDigital :: bool
  isClock :: bool
  isData :: bool

record FormatGuess =
  format :: string
  ftype :: string

record ProtocolGuess =
  protocol :: string
  confidence :: string
  pins :: "string list"


section \<open>Channel profiler: \<^verbatim>\<open>analyzeChannels\<close> of src/public/script.js\<close>

text \<open>
  \<^verbatim>\<open>parts[index]?.trim() || '0'\<close> for one line: the field of the column, trimmed,
  or the literal \<^verbatim>\<open>'0'\<close> when the field is missing or blank.
\<close>

definition cellValue :: "nat \<Rightarrow> string \<Rightarrow> string" where
  "cellValue idx line =
     (let parts = str_split comma line
      in orElse (map_option trim (at parts idx)) ''0'')"

text \<open>\<^verbatim>\<open>dataLines.slice(1, Math.min(20, dataLines.length)).map(...)\<close>.\<close>

definition channelData :: "string list \<Rightarrow> nat \<Rightarrow> string list" where
  "channelData dataLines idx =
     map (cellValue idx) (slice 1 (min 20 (length dataLines)) dataLines)"

text \<open>\<^verbatim>\<open>channelData.filter((val, i) => i > 0 && val !== channelData[i-1]).length\<close>.\<close>

definition countTransitions :: "string list \<Rightarrow> nat" where
  "countTransitions cd =
     length (filter (\<lambda>(i, val). i > 0 \<and> val \<noteq> cd ! (i - 1)) (enumerate 0 cd))"

text \<open>\<^verbatim>\<open>header.replace(/["']/g, '')\<close>.\<close>

definition stripQuotes :: "string \<Rightarrow> string" where
  "stripQuotes header = filter (\<lambda>c. c \<noteq> CHR 0x22 \<and> c \<noteq> CHR 0x27) header"

text \<open>The guard of the early \<^verbatim>\<open>return\<close> in the callback of \<^verbatim>\<open>headers.forEach\<close>.\<close>

definition skipColumn :: "nat \<Rightarrow> string \<Rightarrow> bool" where
  "skipColumn idx header \<longleftrightarrow>
     idx = 0 \<and> (str_includes (toLowerCase header) ''time''
                  \<or> str_includes (toLowerCase header) ''sample'')"

text \<open>The object pushed for a column that is not skipped.\<close>

definition profileColumn :: "string list \<Rightarrow> nat \<Rightarrow> string \<Rightarrow> ChannelProfile" where
  "profileColumn dataLines idx header =
     (let channelName = trim (stripQuotes header);
          cd = channelData dataLines idx;
          uniqueVals = remdups cd;
          nTrans = countTransitions cd
      in \<lparr>name = channelName,
          index = idx,
          uniqueValues = length uniqueVals,
          transitions = nTrans,
          isDigital = (length uniqueVals \<le> 4),
          isClock = (nTrans > 5),
          isData = (nTrans > 0 \<and> nTrans \<le> 10)\<rparr>)"

text \<open>One call of the \<^verbatim>\<open>forEach\<close> callback: the array \<open>channels\<close> before and after.\<close>

definition analyzeStep ::
    "string list \<Rightarrow> nat \<times> string \<Rightarrow> ChannelProfile list \<Rightarrow> ChannelProfile list" where
  "analyzeStep dataLines = (\<lambda>(idx, header) channels.
     if skipColumn idx header then channels
     else channels @ [profileColumn dataLines idx header])"

definition analyzeChannels :: "string list \<Rightarrow> string list \<Rightarrow> ChannelProfile list" where
  "analyzeChannels headers dataLines =
     fold (analyzeStep dataLines) (enumerate 0 headers) []"


section \<open>Protocol classifier: \<^verbatim>\<open>detectProtocol\<close> of src/public/script.js\<close>

text \<open>\<^verbatim>\<open>digitalChannels.map((c, i) => `prefix${i}`)\<close>.\<close>

definition numbered :: "string \<Rightarrow> 'a list \<Rightarrow> string list" where
  "numbered prefix xs = map (\<lambda>(i, c). prefix @ showNat i) (enumerate 0 xs)"

definition detectProtocol :: "ChannelProfile list \<Rightarrow> ProtocolGuess" where
  "detectProtocol channels =
     (let digitalChannels = filter isDigital channels
      in if length digitalChannels = 2
            \<and> (let hasClock = list_ex isClock digitalChannels;
                    hasData = list_ex (\<lambda>c. isData c \<and> \<not> isClock c) digitalChannels
                in hasClock \<and> hasData)
         then \<lparr>protocol = ''I2C'', confidence = ''High'',
               pins = [''SDA (Data)'', ''SCL (Clock)'']\<rparr>
         else if (length digitalChannels \<ge> 3 \<and> length digitalChannels \<le> 5)
            \<and> (let clockLike = length (filter isClock digitalChannels);
                    dataLike = length (filter isData digitalChannels)
                in clockLike \<ge> 1 \<and> dataLike \<ge> 2)
         then \<lparr>protocol = ''SPI'', confidence = ''High'',
               pins = [''MOSI'', ''MISO'', ''SCK'', ''CS/SS'']\<rparr>
         else if length digitalChannels = 1 \<or> length digitalChannels = 2
         then \<lparr>protocol = ''UART/Serial'', confidence = ''Medium'', pins = [''TX'', ''RX'']\<rparr>
         else if length digitalChannels > 8
         then \<lparr>protocol = ''Parallel/Unknown'', confidence = ''Low'',
               pins = numbered ''Data_'' digitalChannels\<rparr>
         else \<lparr>protocol = ''Unknown'', confidence = ''Low'',
               pins = numbered ''Channel_'' digitalChannels\<rparr>)"


section \<open>Format sniffer: \<^verbatim>\<open>detectCSVFormat\<close> of src/public/script.js\<close>

definition detectCSVFormat :: "string list \<Rightarrow> FormatGuess" where
  "detectCSVFormat headers =
     (let headerStr = toLowerCase (join '','' headers)
      in if str_includes headerStr ''time'' \<and> str_includes headerStr ''channel''
         then \<lparr>format = ''Saleae Logic'', ftype = ''standard''\<rparr>
         else if str_includes headerStr ''sample'' \<or> str_includes headerStr ''logic''
         then \<lparr>format = ''PulseView/Sigrok'', ftype = ''open_source''\<rparr>
         else if str_includes headerStr ''timestamp'' \<or> str_includes headerStr ''state''
         then \<lparr>format = ''Digilent/WaveForms'', ftype = ''digilent''\<rparr>
         else if str_includes headerStr ''tick'' \<or> str_includes headerStr ''clk''
         then \<lparr>format = ''Generic/Raw'', ftype = ''raw''\<rparr>
         else \<lparr>format = ''Unknown'', ftype = ''unknown''\<rparr>)"


section \<open>Report renderer: \<^verbatim>\<open>getEnhancedMockAnalysis\<close> of src/public/script.js\<close>

text \<open>
  The bullet of the template, U+2022, lies outside the 8-bit range of \<^typ>\<open>char\<close>; it
  stands in the rendered report as the three bytes of its UTF-8 encoding.
\<close>

definition bullet :: string where
  "bullet = [CHR 0xE2, CHR 0x80, CHR 0xA2]"

text \<open>\<^verbatim>\<open>csvContent.split('\n').filter(line => line.trim())\<close>.\<close>

definition nonBlankLines :: "string \<Rightarrow> string list" where
  "nonBlankLines csvContent = filter (\<lambda>line. trim line \<noteq> []) (str_split nl csvContent)"

text \<open>\<^verbatim>\<open>lines[0]?.split(',').map(h => h.trim()) || []\<close>.\<close>

definition headerTokens :: "string list \<Rightarrow> string list" where
  "headerTokens lines =
     (case at lines 0 of
        None \<Rightarrow> []
      | Some l \<Rightarrow> map trim (str_split comma l))"

text \<open>One line of the PIN MAPPING ANALYSIS section, for the channel at position \<open>i\<close>.\<close>

definition pinMappingLine :: "ProtocolGuess \<Rightarrow> nat \<times> ChannelProfile \<Rightarrow> string" where
  "pinMappingLine proto = (\<lambda>(i, ch).
     bullet @ '' '' @ name ch @ '': '' @ orElse (at (pins proto) i) ''Data Line''
       @ '' '' @ (if isClock ch then ''(Clock-like)'' else [])
       @ '' '' @ (if isData ch then ''(Data)'' else []))"

definition pinMapping :: "ChannelProfile list \<Rightarrow> ProtocolGuess \<Rightarrow> string list" where
  "pinMapping channels proto = map (pinMappingLine proto) (enumerate 0 channels)"

text \<open>One line of the SIGNAL CHARACTERISTICS section.\<close>

definition signalLine :: "ChannelProfile \<Rightarrow> string" where
  "signalLine ch =
     bullet @ '' '' @ name ch @ '': '' @ showNat (transitions ch) @ '' transitions, ''
       @ showNat (uniqueValues ch) @ '' unique states''
       @ (if isDigital ch then '' (Digital)'' else '' (Analog/Mixed)'')"

text \<open>The template literal, line by line; the lines are joined by the newline.\<close>

definition renderReport ::
    "string list \<Rightarrow> string list \<Rightarrow> FormatGuess \<Rightarrow> ChannelProfile list \<Rightarrow> ProtocolGuess \<Rightarrow> string"
  where
  "renderReport lines headers fmt channels proto = join [nl]
     [''PULSEAI DETAILED ANALYSIS REPORT'',
      replicate 50 CHR ''='',
      [],
      ''FILE METADATA:'',
      bullet @ '' Analyzer Format: '' @ format fmt,
      bullet @ '' Total Samples: '' @ showInt (int (length lines) - 1),
      bullet @ '' Data Channels: '' @ showNat (length channels),
      bullet @ '' Time Column: '' @ orElse (at headers 0) ''None'',
      [],
      ''DETECTED PROTOCOL:'',
      bullet @ '' Protocol: '' @ protocol proto,
      bullet @ '' Confidence: '' @ confidence proto,
      bullet @ '' Type: ''
        @ (if ftype fmt = ''standard'' then ''Standard Logic Analyzer'' else ''Custom Format''),
      [],
      ''PIN MAPPING ANALYSIS:'',
      join [nl] (pinMapping channels proto),
      [],
      ''SIGNAL CHARACTERISTICS:'',
      join [nl] (map signalLine channels),
      [],
      ''ESTIMATED DEVICES:'',
      bullet @ '' Primary: ''
        @ (if protocol proto = ''I2C'' then ''I2C Master (Microcontroller)''
           else if protocol proto = ''SPI'' then ''SPI Master'' else ''Unknown Master''),
      bullet @ '' Secondary: ''
        @ (if length channels > 1 then ''Connected peripheral(s) detected''
           else ''No secondary device detected''),
      [],
      ''TIMING ANALYSIS:'',
      bullet @ '' Sample Rate: Estimated from time column'',
      bullet @ '' Bus Speed: ''
        @ (if protocol proto = ''I2C'' then ''Standard (100kHz) or Fast (400kHz)''
           else if protocol proto = ''SPI'' then ''Variable, check clock frequency''
           else ''Unknown''),
      [],
      ''RECOMMENDATIONS:'',
      ''1. Verify protocol settings match device datasheets'',
      ''2. Check signal integrity and voltage levels'',
      ''3. Confirm device addresses for I2C devices'',
      ''4. Review timing constraints for reliable communication'',
      [],
      ''NOTE: This analysis is based on signal patterns. For device-specific identification, additional signature analysis may be required.'']"

definition getEnhancedMockAnalysis :: "string \<Rightarrow> string" where
  "getEnhancedMockAnalysis csvContent =
     (let lines = nonBlankLines csvContent;
          headers = headerTokens lines;
          fmt = detectCSVFormat headers;
          channels = analyzeChannels headers lines;
          proto = detectProtocol channels
      in renderReport lines headers fmt channels proto)"


section \<open>The heuristic stages of src/functions/server.js\<close>

definition fs_detectCSVFormat :: "string list \<Rightarrow> FormatGuess" where
  "fs_detectCSVFormat headers =
     (let headerStr = toLowerCase (join '','' headers)
      in if str_includes headerStr ''time'' \<and> str_includes headerStr ''channel''
         then \<lparr>format = ''Saleae Logic'', ftype = ''standard''\<rparr>
         else if str_includes headerStr ''sample'' \<or> str_includes headerStr ''logic''
         then \<lparr>format = ''PulseView/Sigrok'', ftype = ''open_source''\<rparr>
         else \<lparr>format = ''Unknown'', ftype = ''unknown''\<rparr>)"

definition fs_analyzeStep ::
    "string list \<Rightarrow> nat \<times> string \<Rightarrow> ChannelProfile list \<Rightarrow> ChannelProfile list" where
  "fs_analyzeStep dataLines = (\<lambda>(idx, header) channels.
     if idx = 0 \<and> (str_includes (toLowerCase header) ''time''
                   \<or> str_includes (toLowerCase header) ''sample'')
     then channels
     else
       (let channelName = trim (filter (\<lambda>c. c \<noteq> CHR 0x22 \<and> c \<noteq> CHR 0x27) header);
            cd = map (\<lambda>line. let parts = str_split comma line
                              in orElse (map_option trim (at parts idx)) ''0'')
                   (slice 1 (min 20 (length dataLines)) dataLines);
            uniqueVals = remdups cd;
            nTrans = length (filter (\<lambda>(i, val). i > 0 \<and> val \<noteq> cd ! (i - 1)) (enumerate 0 cd))
        in channels @
           [\<lparr>name = channelName,
             index = idx,
             uniqueValues = length uniqueVals,
             transitions = nTrans,
             isDigital = (length uniqueVals \<le> 4),
             isClock = (nTrans > 5),
             isData = (nTrans > 0 \<and> nTrans \<le> 10)\<rparr>]))"

definition fs_analyzeChannels :: "string list \<Rightarrow> string list \<Rightarrow> ChannelProfile list" where
  "fs_analyzeChannels headers dataLines =
     fold (fs_analyzeStep dataLines) (enumerate 0 headers) []"

definition fs_detectProtocol :: "ChannelProfile list \<Rightarrow> ProtocolGuess" where
  "fs_detectProtocol channels =
     (let digitalChannels = filter isDigital channels
      in if length digitalChannels = 2
            \<and> (let hasClock = list_ex isClock digitalChannels;
                    hasData = list_ex (\<lambda>c. isData c \<and> \<not> isClock c) digitalChannels
                in hasClock \<and> hasData)
         then \<lparr>protocol = ''I2C'', confidence = ''High'',
               pins = [''SDA (Data)'', ''SCL (Clock)'']\<rparr>
         else if (length digitalChannels \<ge> 3 \<and> length digitalChannels \<le> 5)
            \<and> (let clockLike = length (filter isClock digitalChannels);
                    dataLike = length (filter isData digitalChannels)
                in clockLike \<ge> 1 \<and> dataLike \<ge> 2)
         then \<lparr>protocol = ''SPI'', confidence = ''High'',
               pins = [''MOSI'', ''MISO'', ''SCK'', ''CS/SS'']\<rparr>
         else \<lparr>protocol = ''UART/Serial'', confidence = ''Medium'', pins = [''TX'', ''RX'']\<rparr>)"


section \<open>Example captures and profiles\<close>

text \<open>
  A capture of eleven samples in which SCL toggles on every sample and SDA changes three
  times, and two hand-written digital profiles.
\<close>

definition i2c_capture :: "string list" where
  "i2c_capture =
     [''Time,SCL,SDA'',
      ''0,0,1'', ''1,1,1'', ''2,0,1'', ''3,1,0'', ''4,0,0'', ''5,1,0'',
      ''6,0,1'', ''7,1,1'', ''8,0,0'', ''9,1,0'', ''10,0,0'']"

text \<open>Twenty data rows of one column whose only change of value is in the last row.\<close>

definition late_change_rows :: "string list" where
  "late_change_rows = replicate 19 ''0'' @ [''1'']"

text \<open>Twenty data rows of two fields each, except the last, which has one field only.\<close>

definition late_ragged_rows :: "string list" where
  "late_ragged_rows = replicate 19 ''0,1'' @ [''5'']"

text \<open>
  A capture whose first profiled column, VREF, takes eleven distinct values, followed by the
  SCL and SDA columns of the capture above; and its profile as the renderer computes it.
\<close>

definition mixed_capture :: string where
  "mixed_capture = join [nl]
     [''Time,VREF,SCL,SDA'',
      ''0,0.1,0,1'', ''1,0.2,1,1'', ''2,0.3,0,1'', ''3,0.4,1,0'', ''4,0.5,0,0'', ''5,0.6,1,0'',
      ''6,0.7,0,1'', ''7,0.8,1,1'', ''8,0.9,0,0'', ''9,1.0,1,0'', ''10,1.1,0,0'']"

definition mixed_channels :: "ChannelProfile list" where
  "mixed_channels =
     analyzeChannels (headerTokens (nonBlankLines mixed_capture)) (nonBlankLines mixed_capture)"

definition digitalIdle :: ChannelProfile where
  "digitalIdle = \<lparr>name = ''D'', index = 0, uniqueValues = 1, transitions = 0,
                   isDigital = True, isClock = False, isData = False\<rparr>"

definition digitalClock :: ChannelProfile where
  "digitalClock = \<lparr>name = ''CLK'', index = 0, uniqueValues = 2, transitions = 8,
                   isDigital = True, isClock = True, isData = True\<rparr>"


section \<open>Properties of the protocol classifier\<close>

lemma numbered_upt: "numbered p xs = map (\<lambda>i. p @ showNat i) [0..<length xs]"
proof -
  have "map (\<lambda>(i, c). p @ showNat i) (enumerate 0 xs)
        = map ((\<lambda>i. p @ showNat i) \<circ> fst) (enumerate 0 xs)"
    by (simp add: case_prod_unfold comp_def)
  also have "\<dots> = map (\<lambda>i. p @ showNat i) (map fst (enumerate 0 xs))"
    by (simp only: map_map)
  finally show ?thesis by (simp add: numbered_def)
qed




text \<open>
  C2. Whenever between 3 and 5 channels are digital, at least one of them is clock-like and
  at least two of them are data-like, \<^const>\<open>detectProtocol\<close> answers SPI with confidence
  High and the fixed pin roles MOSI, MISO, SCK, CS/SS. (The I2C rule cannot fire on such an
  input, since it asks for exactly two digital channels.)
\<close>

theorem detectProtocol_SPI:
  assumes "3 \<le> length (filter isDigital chs)" and "length (filter isDigital chs) \<le> 5"
    and "1 \<le> length (filter isClock (filter isDigital chs))"
    and "2 \<le> length (filter isData (filter isDigital chs))"
  shows "detectProtocol chs =
          \<lparr>protocol = ''SPI'', confidence = ''High'',
           pins = [''MOSI'', ''MISO'', ''SCK'', ''CS/SS'']\<rparr>"
  using assms by (simp add: detectProtocol_def Let_def)

theorem detectProtocol_SPI_witness:
  "detectProtocol [digitalClock, digitalClock, digitalIdle, digitalIdle] =
     \<lparr>protocol = ''SPI'', confidence = ''High'', pins = [''MOSI'', ''MISO'', ''SCK'', ''CS/SS'']\<rparr>"
  using detectProtocol_SPI [of "[digitalClock, digitalClock, digitalIdle, digitalIdle]"]
  by (simp add: digitalClock_def digitalIdle_def)

text \<open>
  C3. Whenever neither the I2C rule nor the SPI rule fires, \<^const>\<open>detectProtocol\<close>
  answers, with \<open>n\<close> the number of digital channels: UART/Serial, Medium, TX and RX when
  \<open>n\<close> is 1 or 2; otherwise Parallel/Unknown, Low, \<open>Data_0 .. Data_(n-1)\<close> when \<open>n > 8\<close>;
  otherwise Unknown, Low, \<open>Channel_0 .. Channel_(n-1)\<close>.
\<close>

theorem detectProtocol_fallthrough:
  assumes "\<not> (length (filter isDigital chs) = 2
              \<and> (\<exists>c \<in> set (filter isDigital chs). isClock c)
              \<and> (\<exists>d \<in> set (filter isDigital chs). isData d \<and> \<not> isClock d))"
    and "\<not> (3 \<le> length (filter isDigital chs) \<and> length (filter isDigital chs) \<le> 5
              \<and> 1 \<le> length (filter isClock (filter isDigital chs))
              \<and> 2 \<le> length (filter isData (filter isDigital chs)))"
  shows "detectProtocol chs =
     (let n = length (filter isDigital chs)
      in if n = 1 \<or> n = 2
         then \<lparr>protocol = ''UART/Serial'', confidence = ''Medium'', pins = [''TX'', ''RX'']\<rparr>
         else if n > 8
         then \<lparr>protocol = ''Parallel/Unknown'', confidence = ''Low'',
               pins = map (\<lambda>i. ''Data_'' @ showNat i) [0..<n]\<rparr>
         else \<lparr>protocol = ''Unknown'', confidence = ''Low'',
               pins = map (\<lambda>i. ''Channel_'' @ showNat i) [0..<n]\<rparr>)"
  using assms by (auto simp add: detectProtocol_def Let_def list_ex_iff numbered_upt)

theorem detectProtocol_fallthrough_witness:
  "detectProtocol (replicate 9 digitalIdle) =
     \<lparr>protocol = ''Parallel/Unknown'', confidence = ''Low'',
      pins = [''Data_0'', ''Data_1'', ''Data_2'', ''Data_3'', ''Data_4'', ''Data_5'',
              ''Data_6'', ''Data_7'', ''Data_8'']\<rparr>
   \<and> detectProtocol [digitalIdle] =
     \<lparr>protocol = ''UART/Serial'', confidence = ''Medium'', pins = [''TX'', ''RX'']\<rparr>
   \<and> detectProtocol (replicate 3 digitalIdle) =
     \<lparr>protocol = ''Unknown'', confidence = ''Low'',
      pins = [''Channel_0'', ''Channel_1'', ''Channel_2'']\<rparr>"
proof -
  have d: "map (\<lambda>i. ''Data_'' @ showNat i) [0..<9] =
             [''Data_0'', ''Data_1'', ''Data_2'', ''Data_3'', ''Data_4'', ''Data_5'',
              ''Data_6'', ''Data_7'', ''Data_8'']"
    by code_simp
  have c: "map (\<lambda>i. ''Channel_'' @ showNat i) [0..<3] =
             [''Channel_0'', ''Channel_1'', ''Channel_2'']"
    by code_simp
  have r9: "detectProtocol (replicate 9 digitalIdle) =
     \<lparr>protocol = ''Parallel/Unknown'', confidence = ''Low'',
      pins = map (\<lambda>i. ''Data_'' @ showNat i) [0..<9]\<rparr>"
    using detectProtocol_fallthrough [of "replicate 9 digitalIdle"]
    by (simp add: digitalIdle_def)
  have r1: "detectProtocol [digitalIdle] =
     \<lparr>protocol = ''UART/Serial'', confidence = ''Medium'', pins = [''TX'', ''RX'']\<rparr>"
    using detectProtocol_fallthrough [of "[digitalIdle]"]
    by (simp add: digitalIdle_def)
  have r3: "detectProtocol (replicate 3 digitalIdle) =
     \<lparr>protocol = ''Unknown'', confidence = ''Low'',
      pins = map (\<lambda>i. ''Channel_'' @ showNat i) [0..<3]\<rparr>"
    using detectProtocol_fallthrough [of "replicate 3 digitalIdle"]
    by (simp add: digitalIdle_def)
  show ?thesis
    unfolding r9 r1 r3 d c by simp
qed


section \<open>Properties of the channel profiler\<close>

text \<open>The executable substring test is the substring relation.\<close>

lemma startsWith_iff: "startsWith s p \<longleftrightarrow> (\<exists>suf. s = p @ suf)"
  by (induction s p rule: startsWith.induct) auto

lemma str_includes_iff: "str_includes s sub \<longleftrightarrow> (\<exists>pre suf. s = pre @ sub @ suf)"
proof (induction s)
  case Nil
  then show ?case by auto
next
  case (Cons c cs)
  show ?case
  proof
    assume "str_includes (c # cs) sub"
    then consider "startsWith (c # cs) sub" | "str_includes cs sub" by auto
    then show "\<exists>pre suf. c # cs = pre @ sub @ suf"
    proof cases
      case 1
      then obtain suf where "c # cs = sub @ suf" by (auto simp: startsWith_iff)
      then have "c # cs = [] @ sub @ suf" by simp
      then show ?thesis by blast
    next
      case 2
      then obtain pre suf where "cs = pre @ sub @ suf" using Cons.IH by blast
      then have "c # cs = (c # pre) @ sub @ suf" by simp
      then show ?thesis by blast
    qed
  next
    assume "\<exists>pre suf. c # cs = pre @ sub @ suf"
    then obtain pre suf where e: "c # cs = pre @ sub @ suf" by blast
    show "str_includes (c # cs) sub"
    proof (cases pre)
      case Nil
      with e have "startsWith (c # cs) sub" by (auto simp: startsWith_iff)
      then show ?thesis by simp
    next
      case (Cons a pre')
      with e have "cs = pre' @ sub @ suf" by simp
      then have "str_includes cs sub" using Cons.IH by blast
      then show ?thesis by simp
    qed
  qed
qed

lemma fold_analyzeStep:
  "fold (analyzeStep dl) (enumerate n hs) acc =
     acc @ map (\<lambda>(i, h). profileColumn dl i h)
             (filter (\<lambda>(i, h). \<not> skipColumn i h) (enumerate n hs))"
  by (induction hs arbitrary: n acc) (auto simp: analyzeStep_def)

lemma analyzeChannels_map_filter:
  "analyzeChannels hs dl =
     map (\<lambda>(i, h). profileColumn dl i h)
       (filter (\<lambda>(i, h). \<not> skipColumn i h) (enumerate 0 hs))"
  by (simp add: analyzeChannels_def fold_analyzeStep)

lemma map_enumerate_nth:
  "map (\<lambda>(i, h). f i h) (enumerate n xs) = map (\<lambda>i. f i (xs ! (i - n))) [n..<n + length xs]"
  by (rule nth_equalityI) (auto simp: nth_enumerate_eq)

lemma filter_enumerate_Suc:
  "filter (\<lambda>(i, h). \<not> skipColumn i h) (enumerate (Suc n) xs) = enumerate (Suc n) xs"
  by (auto simp: filter_id_conv skipColumn_def in_set_enumerate_eq)

text \<open>
  C5. The profile sequence has one entry per column, in header order, each computed by
  \<^const>\<open>profileColumn\<close> from the column's own index and header token; the first column is
  left out exactly when its lower-cased header token has time or sample as a substring.
  Columns at an index above 0 are profiled whatever their header token is.
\<close>

theorem analyzeChannels_columns:
  "analyzeChannels hs ls =
     map (\<lambda>i. profileColumn ls i (hs ! i))
       (if hs \<noteq> [] \<and> ((\<exists>pre suf. toLowerCase (hd hs) = pre @ ''time'' @ suf)
                      \<or> (\<exists>pre suf. toLowerCase (hd hs) = pre @ ''sample'' @ suf))
        then [1..<length hs] else [0..<length hs])"
proof (cases hs)
  case Nil
  then show ?thesis by (simp add: analyzeChannels_def)
next
  case (Cons h t)
  have skip_iff: "skipColumn 0 h \<longleftrightarrow>
      (\<exists>pre suf. toLowerCase h = pre @ ''time'' @ suf)
      \<or> (\<exists>pre suf. toLowerCase h = pre @ ''sample'' @ suf)"
    by (simp only: skipColumn_def str_includes_iff simp_thms)
  have rest: "map (\<lambda>(i, h). profileColumn ls i h) (enumerate (Suc 0) t)
              = map (\<lambda>i. profileColumn ls i (hs ! i)) [1..<length hs]"
    unfolding Cons by (auto simp: map_enumerate_nth nth_Cons')
  have upt0: "[0..<length hs] = 0 # [1..<length hs]"
    unfolding Cons by (simp add: upt_conv_Cons del: upt_Suc)
  show ?thesis
  proof (cases "skipColumn 0 h")
    case True
    then have "analyzeChannels hs ls = map (\<lambda>(i, h). profileColumn ls i h) (enumerate (Suc 0) t)"
      by (simp add: Cons analyzeChannels_map_filter filter_enumerate_Suc)
    moreover from True have "hs \<noteq> [] \<and> ((\<exists>pre suf. toLowerCase (hd hs) = pre @ ''time'' @ suf)
                      \<or> (\<exists>pre suf. toLowerCase (hd hs) = pre @ ''sample'' @ suf))"
      using skip_iff by (simp add: Cons)
    ultimately show ?thesis
      by (simp only: rest if_True simp_thms)
  next
    case False
    then have "analyzeChannels hs ls =
        profileColumn ls 0 (hs ! 0) # map (\<lambda>(i, h). profileColumn ls i h) (enumerate (Suc 0) t)"
      by (simp add: Cons analyzeChannels_map_filter filter_enumerate_Suc)
    moreover from False have "\<not> (hs \<noteq> [] \<and> ((\<exists>pre suf. toLowerCase (hd hs) = pre @ ''time'' @ suf)
                      \<or> (\<exists>pre suf. toLowerCase (hd hs) = pre @ ''sample'' @ suf)))"
      using skip_iff by (simp add: Cons)
    ultimately show ?thesis
      by (simp only: rest if_False upt0 list.map simp_thms)
  qed
qed

theorem analyzeChannels_columns_witness:
  "map index (analyzeChannels [''Time'', ''SCL'', ''SDA''] i2c_capture) = [1, 2]
   \<and> map index (analyzeChannels [''SCL'', ''Time''] i2c_capture) = [0, 1]"
proof -
  have "toLowerCase ''Time'' = [] @ ''time'' @ []"
    by code_simp
  then have t: "\<exists>pre suf. toLowerCase ''Time'' = pre @ ''time'' @ suf"
    by blast
  have "\<not> str_includes (toLowerCase ''SCL'') ''time''" "\<not> str_includes (toLowerCase ''SCL'') ''sample''"
    by code_simp+
  then have s: "\<not> (\<exists>pre suf. toLowerCase ''SCL'' = pre @ ''time'' @ suf)"
    "\<not> (\<exists>pre suf. toLowerCase ''SCL'' = pre @ ''sample'' @ suf)"
    by (simp_all only: str_includes_iff not_False_eq_True)
  have A: "analyzeChannels [''Time'', ''SCL'', ''SDA''] i2c_capture
        = map (\<lambda>i. profileColumn i2c_capture i ([''Time'', ''SCL'', ''SDA''] ! i))
            [1..<length [''Time'', ''SCL'', ''SDA'']]"
    using analyzeChannels_columns [of "[''Time'', ''SCL'', ''SDA'']" i2c_capture] t
    by (simp only: list.sel list.distinct simp_thms if_True not_False_eq_True)
  have B: "analyzeChannels [''SCL'', ''Time''] i2c_capture
        = map (\<lambda>i. profileColumn i2c_capture i ([''SCL'', ''Time''] ! i))
            [0..<length [''SCL'', ''Time'']]"
    using analyzeChannels_columns [of "[''SCL'', ''Time'']" i2c_capture] s
    by (simp only: list.sel list.distinct simp_thms if_False)
  have i: "\<And>ls i h. index (profileColumn ls i h) = i"
    by (simp add: profileColumn_def Let_def)
  have u: "[1..<length [''Time'', ''SCL'', ''SDA'']] = [1, 2]"
    "[0..<length [''SCL'', ''Time'']] = [0, 1]"
    by code_simp+
  show ?thesis
    unfolding A B u by (simp add: i)
qed

lemma countTransitions_card:
  "countTransitions cd = card {k. 0 < k \<and> k < length cd \<and> cd ! k \<noteq> cd ! (k - 1)}"
proof -
  have "{i. i < length (enumerate 0 cd) \<and> (\<lambda>(i, val). i > 0 \<and> val \<noteq> cd ! (i - 1)) (enumerate 0 cd ! i)}
        = {k. 0 < k \<and> k < length cd \<and> cd ! k \<noteq> cd ! (k - 1)}"
    by (auto simp: nth_enumerate_eq)
  then show ?thesis
    by (simp only: countTransitions_def length_filter_conv_card)
qed

lemma channelData_window: "channelData ls i = map (cellValue i) (take 19 (drop 1 ls))"
proof (cases "length ls \<le> 20")
  case True
  then show ?thesis by (simp add: channelData_def slice_def min_def)
next
  case False
  then show ?thesis by (simp add: channelData_def slice_def min_def)
qed

lemma channelData_take: "channelData (take 20 ls) i = channelData ls i"
  by (simp add: channelData_window drop_take)

lemma profileColumn_take: "profileColumn (take 20 ls) i h = profileColumn ls i h"
  by (simp add: profileColumn_def channelData_take)

text \<open>
  C4, as the code has it. The window of a column is read from the lines at positions
  1 to 19 of the array passed as \<open>dataLines\<close>, which \<^verbatim>\<open>getEnhancedMockAnalysis\<close> calls
  with the header line at position 0: the first \<open>min 19 rowCount\<close> data rows, no fewer and
  no more. Lines from position 20 on never influence a profile, and the distinct-value
  count and the transition count of every profile are those of that window.
\<close>

theorem analyzeChannels_window:
  "channelData ls i = map (cellValue i) (take 19 (drop 1 ls))
   \<and> length (channelData ls i) = min 19 (length ls - 1)
   \<and> analyzeChannels hs ls = analyzeChannels hs (take 20 ls)
   \<and> (\<forall>c \<in> set (analyzeChannels hs ls).
        uniqueValues c = card (set (channelData ls (index c)))
        \<and> transitions c =
            card {k. 0 < k \<and> k < length (channelData ls (index c))
                     \<and> channelData ls (index c) ! k \<noteq> channelData ls (index c) ! (k - 1)})"
proof (intro conjI ballI)
  show "channelData ls i = map (cellValue i) (take 19 (drop 1 ls))"
    by (rule channelData_window)
  show "length (channelData ls i) = min 19 (length ls - 1)"
    by (simp add: channelData_window)
  show "analyzeChannels hs ls = analyzeChannels hs (take 20 ls)"
    by (simp add: analyzeChannels_map_filter profileColumn_take)
next
  fix c assume "c \<in> set (analyzeChannels hs ls)"
  then obtain j h where c: "c = profileColumn ls j h"
    by (auto simp: analyzeChannels_map_filter)
  show "uniqueValues c = card (set (channelData ls (index c)))"
    by (simp add: c profileColumn_def Let_def length_remdups_card_conv)
  show "transitions c =
            card {k. 0 < k \<and> k < length (channelData ls (index c))
                     \<and> channelData ls (index c) ! k \<noteq> channelData ls (index c) ! (k - 1)}"
    by (simp add: c profileColumn_def Let_def countTransitions_card)
qed

theorem analyzeChannels_window_witness:
  "channelData (''CH1'' # late_change_rows) 0
     = map (cellValue 0) (take 19 (drop 1 (''CH1'' # late_change_rows)))
   \<and> length (channelData (''CH1'' # late_change_rows) 0) = 19
   \<and> analyzeChannels [''CH1''] (''CH1'' # late_change_rows)
       = analyzeChannels [''CH1''] (take 20 (''CH1'' # late_change_rows))
   \<and> uniqueValues (hd (analyzeChannels [''CH1''] (''CH1'' # late_change_rows)))
       = card (set (channelData (''CH1'' # late_change_rows)
                      (index (hd (analyzeChannels [''CH1''] (''CH1'' # late_change_rows))))))"
proof -
  note T = analyzeChannels_window [of "''CH1'' # late_change_rows" 0 "[''CH1'']"]
  have e: "analyzeChannels [''CH1''] (''CH1'' # late_change_rows) =
     [\<lparr>name = ''CH1'', index = 0, uniqueValues = 1, transitions = 0,
       isDigital = True, isClock = False, isData = False\<rparr>]"
    by code_simp
  have m: "hd (analyzeChannels [''CH1''] (''CH1'' # late_change_rows))
             \<in> set (analyzeChannels [''CH1''] (''CH1'' # late_change_rows))"
    by (simp add: e)
  have l: "min 19 (length (''CH1'' # late_change_rows) - 1) = 19"
    by code_simp
  have a: "channelData (''CH1'' # late_change_rows) 0
     = map (cellValue 0) (take 19 (drop 1 (''CH1'' # late_change_rows)))"
    by (rule T [THEN conjunct1])
  have b: "length (channelData (''CH1'' # late_change_rows) 0) = 19"
    by (rule trans [OF T [THEN conjunct2, THEN conjunct1] l])
  have c: "analyzeChannels [''CH1''] (''CH1'' # late_change_rows)
       = analyzeChannels [''CH1''] (take 20 (''CH1'' # late_change_rows))"
    by (rule T [THEN conjunct2, THEN conjunct2, THEN conjunct1])
  have d: "uniqueValues (hd (analyzeChannels [''CH1''] (''CH1'' # late_change_rows)))
       = card (set (channelData (''CH1'' # late_change_rows)
                      (index (hd (analyzeChannels [''CH1''] (''CH1'' # late_change_rows))))))"
    by (rule bspec [OF T [THEN conjunct2, THEN conjunct2, THEN conjunct2] m, THEN conjunct1])
  from a b c d show ?thesis
    by (intro conjI)
qed

text \<open>
  C4, as the claim states it, fails: with twenty data rows whose only change of value is in
  the twentieth, the first \<open>min 20 rowCount\<close> data rows hold one transition, and the profile
  reports none.
\<close>

theorem analyzeChannels_window_counterexample:
  "length late_change_rows = 20
   \<and> countTransitions (map (cellValue 0) (take (min 20 (length late_change_rows)) late_change_rows)) = 1
   \<and> map transitions (analyzeChannels [''CH1''] (''CH1'' # late_change_rows)) = [0]"
  by code_simp

text \<open>
  C6, as the code has it. The profiler has no failing operation: a read beyond the fields
  of a line is the \<open>None\<close> of \<^const>\<open>at\<close>, which \<^const>\<open>orElse\<close> replaces. A row
  among the first 19 data rows, the rows of the sampling window, that has no field for a
  column contributes the literal 0 to that column's window, and the window keeps its full
  length.
\<close>

theorem ragged_row_contributes_zero:
  assumes "k < min 19 (length rows)" and "length (str_split comma (rows ! k)) \<le> i"
  shows "channelData (h # rows) i ! k = ''0''
         \<and> length (channelData (h # rows) i) = min 19 (length rows)"
  using assms by (simp add: channelData_window cellValue_def at_def orElse_def Let_def)

theorem ragged_row_contributes_zero_witness:
  "length (str_split comma ([''0,1,1'', ''1,0'', ''2,1,1''] ! 1)) \<le> 2
   \<and> channelData (''Time,SCL,SDA'' # [''0,1,1'', ''1,0'', ''2,1,1'']) 2 ! 1 = ''0''
   \<and> length (channelData (''Time,SCL,SDA'' # [''0,1,1'', ''1,0'', ''2,1,1'']) 2) = 3"
proof -
  have h: "length (str_split comma ([''0,1,1'', ''1,0'', ''2,1,1''] ! 1)) \<le> 2"
    by code_simp
  show ?thesis
    using ragged_row_contributes_zero [of 1 "[''0,1,1'', ''1,0'', ''2,1,1'']" 2 "''Time,SCL,SDA''"] h
    by simp
qed

text \<open>
  C6, as the claim states it, fails: a ragged row contributes nothing when it lies beyond
  the 19th data row. With twenty data rows of which only the twentieth lacks the field of
  column 1, the window of that column holds no 0.
\<close>

theorem ragged_row_contributes_zero_counterexample:
  "length late_ragged_rows = 20
   \<and> length (str_split comma (late_ragged_rows ! 19)) \<le> 1
   \<and> ''0'' \<notin> set (channelData (''Time,A'' # late_ragged_rows) 1)"
  by code_simp


section \<open>Properties of the rendered report\<close>

lemma showInt_minus_one: "showInt (- 1) = ''-1''"
  by code_simp

lemma showNat_zero: "showNat 0 = ''0''"
  by code_simp

text \<open>
  C7. A capture with no non-blank line, the empty string among them, has no header and no
  rows. The renderer has no failing operation on it: \<^verbatim>\<open>lines[0]\<close> is guarded by
  \<^verbatim>\<open>?.\<close> and \<^verbatim>\<open>||\<close>. The profile sequence is empty, the protocol guess is Unknown
  with confidence Low and no pin role, and the report is the template with its two
  per-channel sections empty.
\<close>

theorem empty_capture_report:
  assumes "nonBlankLines csvContent = []"
  shows "analyzeChannels (headerTokens (nonBlankLines csvContent)) (nonBlankLines csvContent) = []
    \<and> detectProtocol [] = \<lparr>protocol = ''Unknown'', confidence = ''Low'', pins = []\<rparr>
    \<and> getEnhancedMockAnalysis csvContent = join [nl]
     [''PULSEAI DETAILED ANALYSIS REPORT'',
      ''=================================================='',
      [],
      ''FILE METADATA:'',
      bullet @ '' Analyzer Format: Unknown'',
      bullet @ '' Total Samples: -1'',
      bullet @ '' Data Channels: 0'',
      bullet @ '' Time Column: None'',
      [],
      ''DETECTED PROTOCOL:'',
      bullet @ '' Protocol: Unknown'',
      bullet @ '' Confidence: Low'',
      bullet @ '' Type: Custom Format'',
      [],
      ''PIN MAPPING ANALYSIS:'',
      [],
      [],
      ''SIGNAL CHARACTERISTICS:'',
      [],
      [],
      ''ESTIMATED DEVICES:'',
      bullet @ '' Primary: Unknown Master'',
      bullet @ '' Secondary: No secondary device detected'',
      [],
      ''TIMING ANALYSIS:'',
      bullet @ '' Sample Rate: Estimated from time column'',
      bullet @ '' Bus Speed: Unknown'',
      [],
      ''RECOMMENDATIONS:'',
      ''1. Verify protocol settings match device datasheets'',
      ''2. Check signal integrity and voltage levels'',
      ''3. Confirm device addresses for I2C devices'',
      ''4. Review timing constraints for reliable communication'',
      [],
      ''NOTE: This analysis is based on signal patterns. For device-specific identification, additional signature analysis may be required.'']"
proof -
  have h: "headerTokens [] = []"
    by (simp add: headerTokens_def at_def)
  have a: "analyzeChannels [] [] = []"
    by (simp add: analyzeChannels_def)
  have p: "detectProtocol [] = \<lparr>protocol = ''Unknown'', confidence = ''Low'', pins = []\<rparr>"
    by (simp add: detectProtocol_def numbered_def)
  have f: "detectCSVFormat [] = \<lparr>format = ''Unknown'', ftype = ''unknown''\<rparr>"
    by (simp add: detectCSVFormat_def toLowerCase_def)
  have e: "replicate 50 CHR ''='' = ''==================================================''"
    by code_simp
  have r: "getEnhancedMockAnalysis csvContent =
      renderReport [] [] \<lparr>format = ''Unknown'', ftype = ''unknown''\<rparr> []
        \<lparr>protocol = ''Unknown'', confidence = ''Low'', pins = []\<rparr>"
    by (simp add: getEnhancedMockAnalysis_def assms h a p f)
  show ?thesis
    unfolding r assms h a p
    by (simp add: renderReport_def pinMapping_def e at_def orElse_def showInt_minus_one showNat_zero)
qed

theorem empty_capture_report_witness:
  "nonBlankLines [] = []
   \<and> analyzeChannels (headerTokens (nonBlankLines [])) (nonBlankLines []) = []
   \<and> take 33 (getEnhancedMockAnalysis []) = ''PULSEAI DETAILED ANALYSIS REPORT'' @ [nl]"
proof -
  have n: "nonBlankLines [] = []"
    by code_simp
  show ?thesis
    using empty_capture_report [OF n] n by (simp add: nl_def)
qed

text \<open>Splitting at a separator undoes joining with it.\<close>

lemma str_split_not_Nil: "str_split c s \<noteq> []"
  by (induction s) (auto split: list.splits)

lemma str_split_no_sep: "l \<in> set (str_split c s) \<Longrightarrow> c \<notin> set l"
  by (induction s arbitrary: l) (auto split: if_splits list.splits)

lemma str_split_single: "c \<notin> set x \<Longrightarrow> str_split c x = [x]"
  by (induction x) auto

lemma str_split_append: "c \<notin> set x \<Longrightarrow> str_split c (x @ c # r) = x # str_split c r"
  by (induction x) auto

lemma str_split_join:
  "ls \<noteq> [] \<Longrightarrow> \<forall>l \<in> set ls. c \<notin> set l \<Longrightarrow> str_split c (join [c] ls) = ls"
  by (induction "[c]" ls rule: join.induct) (auto simp: str_split_single str_split_append)

lemma nonBlankLines_insert:
  assumes "nl \<notin> set ws" and "trim ws = []"
  shows "nonBlankLines (join [nl] (take k (str_split nl t) @ ws # drop k (str_split nl t)))
         = nonBlankLines t"
proof -
  let ?L = "str_split nl t"
  have "\<forall>l \<in> set (take k ?L @ ws # drop k ?L). nl \<notin> set l"
    using assms(1) by (auto dest: in_set_takeD in_set_dropD str_split_no_sep)
  then have "str_split nl (join [nl] (take k ?L @ ws # drop k ?L)) = take k ?L @ ws # drop k ?L"
    by (intro str_split_join) simp_all
  then have "nonBlankLines (join [nl] (take k ?L @ ws # drop k ?L))
             = filter (\<lambda>line. trim line \<noteq> []) (take k ?L @ ws # drop k ?L)"
    by (simp only: nonBlankLines_def)
  also have "\<dots> = filter (\<lambda>line. trim line \<noteq> []) (take k ?L)
                    @ filter (\<lambda>line. trim line \<noteq> []) (drop k ?L)"
    using assms(2) by simp
  also have "\<dots> = filter (\<lambda>line. trim line \<noteq> []) (take k ?L @ drop k ?L)"
    by (simp only: filter_append)
  also have "\<dots> = nonBlankLines t"
    by (simp only: append_take_drop_id nonBlankLines_def)
  finally show ?thesis .
qed

text \<open>
  C10. Inserting a line of white space only at any position of the text (and so, read
  from right to left, deleting one) leaves the rendered report unchanged: such lines are
  filtered out before the header is taken and the rows are counted and sampled.
\<close>

theorem report_ignores_blank_lines:
  assumes "nl \<notin> set ws" and "trim ws = []"
  shows "getEnhancedMockAnalysis (join [nl] (take k (str_split nl t) @ ws # drop k (str_split nl t)))
         = getEnhancedMockAnalysis t"
  using nonBlankLines_insert [OF assms] by (simp add: getEnhancedMockAnalysis_def)

theorem report_ignores_blank_lines_witness:
  "getEnhancedMockAnalysis ''Time,SCL\<newline>  \<newline>0,1\<newline>1,0'' = getEnhancedMockAnalysis ''Time,SCL\<newline>0,1\<newline>1,0''"
proof -
  have a: "nl \<notin> set ''  ''" "trim ''  '' = []"
    by code_simp+
  have j: "join [nl] (take 1 (str_split nl ''Time,SCL\<newline>0,1\<newline>1,0'') @ ''  '' # drop 1 (str_split nl ''Time,SCL\<newline>0,1\<newline>1,0''))
           = ''Time,SCL\<newline>  \<newline>0,1\<newline>1,0''"
    by code_simp
  show ?thesis
    using report_ignores_blank_lines [OF a, of 1 "''Time,SCL\<newline>0,1\<newline>1,0''"]
    unfolding j .
qed

text \<open>The line of position \<open>i\<close> of \<^const>\<open>pinMapping\<close>.\<close>

lemma pins_nonempty: "p \<in> set (pins (detectProtocol chs)) \<Longrightarrow> p \<noteq> []"
  by (auto simp: detectProtocol_def Let_def numbered_def split: if_splits)

lemma pinMapping_nth:
  assumes "i < length channels"
  shows "length (pinMapping channels (detectProtocol channels)) = length channels
    \<and> pinMapping channels (detectProtocol channels) ! i =
       bullet @ '' '' @ name (channels ! i) @ '': ''
        @ (if i < length (pins (detectProtocol channels))
           then pins (detectProtocol channels) ! i else ''Data Line'')
        @ '' '' @ (if isClock (channels ! i) then ''(Clock-like)'' else [])
        @ '' '' @ (if isData (channels ! i) then ''(Data)'' else [])"
proof -
  have "orElse (at (pins (detectProtocol channels)) i) ''Data Line''
        = (if i < length (pins (detectProtocol channels))
           then pins (detectProtocol channels) ! i else ''Data Line'')"
    using pins_nonempty [of "pins (detectProtocol channels) ! i" channels]
    by (simp add: orElse_def at_def)
  with assms show ?thesis
    by (simp add: pinMapping_def pinMappingLine_def nth_enumerate_eq)
qed

text \<open>
  No line of the report up to the end of the PIN MAPPING ANALYSIS section holds a newline
  of its own: header tokens and channel names are cut from lines that were split at the
  newline, and the other pieces are literals and decimal numbers.
\<close>

lemma str_split_join_cons:
  "c \<notin> set x \<Longrightarrow> str_split c (join [c] (x # y # ys)) = x # str_split c (join [c] (y # ys))"
  by (simp add: str_split_append)

lemma str_split_join_append:
  "ys \<noteq> [] \<Longrightarrow> \<forall>l \<in> set ys. c \<notin> set l \<Longrightarrow>
     str_split c (join [c] ys @ c # r) = ys @ str_split c r"
  by (induction "[c]" ys rule: join.induct) (auto simp: str_split_append)

lemma str_split_join_join:
  "ys \<noteq> [] \<Longrightarrow> \<forall>l \<in> set ys. c \<notin> set l \<Longrightarrow>
     str_split c (join [c] (join [c] ys # z # zs)) = ys @ str_split c (join [c] (z # zs))"
  by (simp add: str_split_join_append)

lemma str_split_subset: "l \<in> set (str_split c s) \<Longrightarrow> set l \<subseteq> set s"
proof (induction s arbitrary: l)
  case Nil
  then show ?case by simp
next
  case (Cons a s)
  obtain f fs where fs: "str_split c s = f # fs"
    using str_split_not_Nil [of c s] by (cases "str_split c s") auto
  have "set f \<subseteq> set s" and "\<forall>g \<in> set fs. set g \<subseteq> set s"
    using Cons.IH fs by auto
  with Cons.prems fs show ?case
    by (auto split: if_splits)
qed

lemma trim_subset: "set (trim s) \<subseteq> set s"
proof -
  have "set (trim s) \<subseteq> set (dropWhile isWhiteSpace s)"
    unfolding trim_def by (auto dest: set_dropWhileD)
  then show ?thesis
    by (auto dest: set_dropWhileD)
qed

lemma nonBlankLines_nl: "l \<in> set (nonBlankLines csv) \<Longrightarrow> nl \<notin> set l"
  by (auto simp: nonBlankLines_def dest: str_split_no_sep)

lemma headerTokens_nl:
  assumes "\<forall>l \<in> set lines. nl \<notin> set l" and "h \<in> set (headerTokens lines)"
  shows "nl \<notin> set h"
proof (cases lines)
  case Nil
  with assms(2) show ?thesis by (simp add: headerTokens_def at_def)
next
  case (Cons l ls)
  with assms(2) obtain f where f: "f \<in> set (str_split comma l)" and h: "h = trim f"
    by (auto simp: headerTokens_def at_def)
  from assms(1) Cons have "nl \<notin> set l" by simp
  with str_split_subset [OF f] have "nl \<notin> set f" by blast
  with trim_subset [of f] h show ?thesis by blast
qed

lemma name_nl:
  assumes "c \<in> set (analyzeChannels headers ls)" and "\<forall>h \<in> set headers. nl \<notin> set h"
  shows "nl \<notin> set (name c)"
proof -
  from assms(1) obtain i where i: "i < length headers" and c: "c = profileColumn ls i (headers ! i)"
    by (auto simp: analyzeChannels_map_filter in_set_enumerate_eq)
  define h where "h = headers ! i"
  from i c have "h \<in> set headers" and "c = profileColumn ls i h"
    by (simp_all add: h_def)
  then have "set (name c) \<subseteq> set h"
    using trim_subset [of "stripQuotes h"]
    by (auto simp: profileColumn_def Let_def stripQuotes_def)
  with assms(2) \<open>h \<in> set headers\<close> show ?thesis by blast
qed

lemma digit_nl: "d < 10 \<Longrightarrow> digit d \<noteq> nl"
proof
  assume d: "d < 10" and e: "digit d = nl"
  then have "(of_char (digit d) :: nat) = of_char nl" by simp
  with d show False by (simp add: digit_def nl_def)
qed

lemma showNat_nl: "nl \<notin> set (showNat n)"
proof (induction n rule: showNat.induct)
  case (1 n)
  show ?case
  proof (cases "n < 10")
    case True
    then show ?thesis using digit_nl [of n] by (subst showNat.simps) auto
  next
    case False
    then show ?thesis using 1 digit_nl [of "n mod 10"] by (subst showNat.simps) auto
  qed
qed

lemma showInt_nl: "nl \<notin> set (showInt i)"
  by (simp add: showInt_def showNat_nl) (simp add: nl_def)

lemma pins_nl: "p \<in> set (pins (detectProtocol chs)) \<Longrightarrow> nl \<notin> set p"
  by (auto simp: detectProtocol_def Let_def numbered_def showNat_nl split: if_splits)
     (simp_all add: nl_def)

lemma protocol_nl: "nl \<notin> set (protocol (detectProtocol chs))"
  by (simp add: detectProtocol_def Let_def nl_def)

lemma confidence_nl: "nl \<notin> set (confidence (detectProtocol chs))"
  by (simp add: detectProtocol_def Let_def nl_def)

lemma format_nl: "nl \<notin> set (format (detectCSVFormat hs))"
  by (simp add: detectCSVFormat_def Let_def nl_def)

lemma orElse_nl: "(\<forall>h \<in> set xs. nl \<notin> set h) \<Longrightarrow> nl \<notin> set d \<Longrightarrow> nl \<notin> set (orElse (at xs i) d)"
  by (auto simp: orElse_def at_def)

lemma pinMapping_nl:
  assumes "\<forall>c \<in> set channels. nl \<notin> set (name c)" and "l \<in> set (pinMapping channels (detectProtocol ps))"
  shows "nl \<notin> set l"
proof -
  from assms(2) obtain i where i: "i < length channels"
      and li: "l = pinMappingLine (detectProtocol ps) (i, channels ! i)"
    by (auto simp: pinMapping_def in_set_enumerate_eq)
  define ch where "ch = channels ! i"
  from i li have ch: "ch \<in> set channels" and l: "l = pinMappingLine (detectProtocol ps) (i, ch)"
    by (simp_all add: ch_def)
  have d: "nl \<notin> set ''Data Line''"
    by (simp add: nl_def)
  have "nl \<notin> set (orElse (at (pins (detectProtocol ps)) i) ''Data Line'')"
    by (rule orElse_nl [OF _ d]) (simp add: pins_nl)
  moreover have "nl \<notin> set (name ch)"
    using assms(1) ch by blast
  moreover have "nl \<notin> set (bullet @ '' '')" "nl \<notin> set '': ''" "nl \<notin> set '' ''"
    "nl \<notin> set ''(Clock-like)''" "nl \<notin> set ''(Data)''"
    by (simp_all add: nl_def bullet_def)
  ultimately show ?thesis
    unfolding l pinMappingLine_def by (auto simp: nl_def bullet_def)
qed

lemma str_split_join_step:
  "c \<notin> set x \<Longrightarrow> r \<noteq> [] \<Longrightarrow> str_split c (join [c] (x # r)) = x # str_split c (join [c] r)"
  by (cases r) (simp_all add: str_split_append)

lemma str_split_join_section:
  assumes "\<forall>x \<in> set hs. c \<notin> set x" and "ys \<noteq> []" and "\<forall>l \<in> set ys. c \<notin> set l"
  shows "str_split c (join [c] (hs @ join [c] ys # [] # z # zs))
         = hs @ ys @ [] # str_split c (join [c] (z # zs))"
  using assms(1)
proof (induction hs)
  case Nil
  have "str_split c (join [c] (join [c] ys # [] # z # zs))
        = ys @ str_split c (join [c] ([] # z # zs))"
    using assms(2,3) by (rule str_split_join_join)
  also have "str_split c (join [c] ([] # z # zs)) = [] # str_split c (join [c] (z # zs))"
    by (rule str_split_join_step) simp_all
  finally show ?case by simp
next
  case (Cons h hs)
  have "str_split c (join [c] (h # (hs @ join [c] ys # [] # z # zs)))
        = h # str_split c (join [c] (hs @ join [c] ys # [] # z # zs))"
    using Cons.prems by (intro str_split_join_step) simp_all
  with Cons show ?case by simp
qed

lemma renderReport_lines:
  assumes "channels \<noteq> []" and "nl \<notin> set (format fmt)"
    and "nl \<notin> set (orElse (at headers 0) ''None'')"
    and "nl \<notin> set (protocol proto)" and "nl \<notin> set (confidence proto)"
    and "\<forall>l \<in> set (pinMapping channels proto). nl \<notin> set l"
  shows "\<exists>hs rest. length hs = 15 \<and> hs ! 14 = ''PIN MAPPING ANALYSIS:''
     \<and> str_split nl (renderReport lines headers fmt channels proto)
         = hs @ pinMapping channels proto @ [] # rest"
proof -
  define hs where "hs =
     [''PULSEAI DETAILED ANALYSIS REPORT'',
      replicate 50 CHR ''='',
      [],
      ''FILE METADATA:'',
      bullet @ '' Analyzer Format: '' @ format fmt,
      bullet @ '' Total Samples: '' @ showInt (int (length lines) - 1),
      bullet @ '' Data Channels: '' @ showNat (length channels),
      bullet @ '' Time Column: '' @ orElse (at headers 0) ''None'',
      [],
      ''DETECTED PROTOCOL:'',
      bullet @ '' Protocol: '' @ protocol proto,
      bullet @ '' Confidence: '' @ confidence proto,
      bullet @ '' Type: ''
        @ (if ftype fmt = ''standard'' then ''Standard Logic Analyzer'' else ''Custom Format''),
      [],
      ''PIN MAPPING ANALYSIS:'']"
  have pm: "pinMapping channels proto \<noteq> []"
    using assms(1) by (cases channels) (simp_all add: pinMapping_def)
  have nlc: "\<And>s. nl \<notin> set s \<longleftrightarrow> CHR 0x0A \<notin> set s"
    by (simp add: nl_def)
  have hs: "\<forall>x \<in> set hs. nl \<notin> set x"
    using assms(2-5) showInt_nl [of "int (length lines) - 1"] showNat_nl [of "length channels"]
    unfolding hs_def nlc by (simp add: bullet_def)
  have "\<exists>z zs. renderReport lines headers fmt channels proto
      = join [nl] (hs @ join [nl] (pinMapping channels proto) # [] # z # zs)"
    unfolding hs_def renderReport_def append.simps by (intro exI) (rule refl)
  then obtain z zs where r: "renderReport lines headers fmt channels proto
      = join [nl] (hs @ join [nl] (pinMapping channels proto) # [] # z # zs)"
    by blast
  have "length hs = 15" and "hs ! 14 = ''PIN MAPPING ANALYSIS:''"
    by (simp_all add: hs_def)
  moreover have "str_split nl (renderReport lines headers fmt channels proto)
      = hs @ pinMapping channels proto @ [] # str_split nl (join [nl] (z # zs))"
    unfolding r by (rule str_split_join_section [OF hs pm assms(6)])
  ultimately show ?thesis
    by blast
qed

text \<open>
  C8, as the code has it. Split at the newline, the report of
  \<^const>\<open>getEnhancedMockAnalysis\<close> has the title PIN MAPPING ANALYSIS: at line 14, then one
  line per profiled channel, digital or not, then an empty line. The line of the channel
  at position \<open>i\<close> of the profile sequence carries the pin role at position \<open>i\<close> of the
  protocol guess, or the fixed label Data Line when the guess has no role at that
  position, whichever channel showed the clock-like or data-like characteristic.
\<close>

theorem report_pin_mapping_positional:
  assumes "channels = analyzeChannels (headerTokens (nonBlankLines csvContent))
                        (nonBlankLines csvContent)"
    and "proto = detectProtocol channels"
    and "i < length channels"
  shows "str_split nl (getEnhancedMockAnalysis csvContent) ! 14 = ''PIN MAPPING ANALYSIS:''
    \<and> str_split nl (getEnhancedMockAnalysis csvContent) ! (15 + i) =
       bullet @ '' '' @ name (channels ! i) @ '': ''
        @ (if i < length (pins proto) then pins proto ! i else ''Data Line'')
        @ '' '' @ (if isClock (channels ! i) then ''(Clock-like)'' else [])
        @ '' '' @ (if isData (channels ! i) then ''(Data)'' else [])
    \<and> str_split nl (getEnhancedMockAnalysis csvContent) ! (15 + length channels) = []"
proof -
  define ls where "ls = nonBlankLines csvContent"
  define hs where "hs = headerTokens ls"
  have ch: "channels = analyzeChannels hs ls"
    by (simp add: assms(1) hs_def ls_def)
  have g: "getEnhancedMockAnalysis csvContent
           = renderReport ls hs (detectCSVFormat hs) channels proto"
    by (simp add: getEnhancedMockAnalysis_def Let_def assms(1,2) hs_def ls_def)
  have lnl: "\<forall>l \<in> set ls. nl \<notin> set l"
    by (simp add: ls_def nonBlankLines_nl)
  have hnl: "\<forall>h \<in> set hs. nl \<notin> set h"
  proof
    fix h assume "h \<in> set hs"
    then show "nl \<notin> set h"
      unfolding hs_def by (rule headerTokens_nl [OF lnl])
  qed
  have cnl: "\<forall>c \<in> set channels. nl \<notin> set (name c)"
  proof
    fix c assume "c \<in> set channels"
    then show "nl \<notin> set (name c)"
      unfolding ch using hnl by (rule name_nl)
  qed
  have none: "nl \<notin> set ''None''"
    by (simp add: nl_def)
  from assms(3) have ne: "channels \<noteq> []"
    by auto
  have pnl: "nl \<notin> set (protocol proto)" and fnl: "nl \<notin> set (confidence proto)"
    unfolding assms(2) by (rule protocol_nl, rule confidence_nl)
  have mnl: "\<forall>l \<in> set (pinMapping channels proto). nl \<notin> set l"
  proof
    fix l assume "l \<in> set (pinMapping channels proto)"
    then show "nl \<notin> set l"
      unfolding assms(2) by (rule pinMapping_nl [OF cnl])
  qed
  obtain hd15 rest where len: "length hd15 = 15" and title: "hd15 ! 14 = ''PIN MAPPING ANALYSIS:''"
    and e: "str_split nl (getEnhancedMockAnalysis csvContent)
              = hd15 @ pinMapping channels proto @ [] # rest"
    unfolding g
    using renderReport_lines [OF ne format_nl [of hs] orElse_nl [OF hnl none, of 0] pnl fnl mnl,
        where lines = ls]
    by blast
  have lpm: "length (pinMapping channels proto) = length channels"
    by (simp add: pinMapping_def)
  have "(hd15 @ pinMapping channels proto @ [] # rest) ! 14 = hd15 ! 14"
    using len by (simp add: nth_append)
  moreover have "(hd15 @ pinMapping channels proto @ [] # rest) ! (15 + i)
                 = pinMapping channels proto ! i"
    using len lpm assms(3) by (simp add: nth_append)
  moreover have "(hd15 @ pinMapping channels proto @ [] # rest) ! (15 + length channels) = []"
    using len lpm by (simp add: nth_append)
  ultimately show ?thesis
    unfolding e using title pinMapping_nth [OF assms(3)]
    by (simp only: assms(2) simp_thms)
qed

theorem report_pin_mapping_positional_witness:
  "2 < length mixed_channels
   \<and> str_split nl (getEnhancedMockAnalysis mixed_capture) ! 14 = ''PIN MAPPING ANALYSIS:''
   \<and> str_split nl (getEnhancedMockAnalysis mixed_capture) ! 17 = bullet @ '' SDA: Data Line  (Data)''
   \<and> str_split nl (getEnhancedMockAnalysis mixed_capture) ! 18 = []"
proof -
  have l: "2 < length mixed_channels"
    by code_simp
  have e: "name (mixed_channels ! 2) = ''SDA''" "\<not> 2 < length (pins (detectProtocol mixed_channels))"
    "\<not> isClock (mixed_channels ! 2)" "isData (mixed_channels ! 2)" "length mixed_channels = 3"
    by code_simp+
  show ?thesis
    using report_pin_mapping_positional [OF mixed_channels_def refl l] e l by simp
qed

text \<open>
  C8, as the claim states it, fails: the report does not give the roles to the digital
  channels by their position among the digital channels. In the report of a capture whose
  first profiled column is not digital, that column takes the first role, the first
  digital channel takes the second, and the second digital channel is left with the label
  Data Line.
\<close>

theorem report_pin_mapping_positional_counterexample:
  "map name (filter isDigital mixed_channels) = [''SCL'', ''SDA'']
   \<and> pins (detectProtocol mixed_channels) = [''SDA (Data)'', ''SCL (Clock)'']
   \<and> take 5 (drop 14 (str_split nl (getEnhancedMockAnalysis mixed_capture))) =
       [''PIN MAPPING ANALYSIS:'',
        bullet @ '' VREF: SDA (Data) (Clock-like) (Data)'',
        bullet @ '' SCL: SCL (Clock) (Clock-like) (Data)'',
        bullet @ '' SDA: Data Line  (Data)'',
        []]"
  by code_simp


section \<open>The two variants of the heuristic stages\<close>

lemma cellValue_fun:
  "(\<lambda>line. orElse (map_option trim (at (str_split comma line) idx)) ''0'') = cellValue idx"
  by (rule ext) (simp add: cellValue_def)

lemma fs_analyzeStep_eq: "fs_analyzeStep dl p chs = analyzeStep dl p chs"
proof (cases p)
  case (Pair idx header)
  show ?thesis
    unfolding Pair
    by (simp add: fs_analyzeStep_def analyzeStep_def skipColumn_def profileColumn_def
          channelData_def cellValue_fun countTransitions_def stripQuotes_def Let_def)
qed

text \<open>
  C9, as the code has it. The profilers of src/functions/server.js and
  src/public/script.js compute the same profile sequence. The format sniffer of
  src/functions/server.js has only the first two rules: it agrees with the sniffer of
  src/public/script.js unless that one answers Digilent/WaveForms or Generic/Raw, where
  it answers Unknown. The classifier of src/functions/server.js has no Parallel/Unknown
  and no Unknown rule: it agrees with the classifier of src/public/script.js unless that
  one answers Parallel/Unknown or Unknown, where it answers UART/Serial, Medium, TX and RX.
\<close>

theorem variants_agreement:
  "fs_analyzeChannels hs ls = analyzeChannels hs ls
   \<and> fs_detectCSVFormat hs =
       (if ftype (detectCSVFormat hs) = ''digilent'' \<or> ftype (detectCSVFormat hs) = ''raw''
        then \<lparr>format = ''Unknown'', ftype = ''unknown''\<rparr>
        else detectCSVFormat hs)
   \<and> fs_detectProtocol chs =
       (if protocol (detectProtocol chs) = ''Parallel/Unknown''
           \<or> protocol (detectProtocol chs) = ''Unknown''
        then \<lparr>protocol = ''UART/Serial'', confidence = ''Medium'', pins = [''TX'', ''RX'']\<rparr>
        else detectProtocol chs)"
proof (intro conjI)
  show "fs_analyzeChannels hs ls = analyzeChannels hs ls"
    by (simp add: fs_analyzeChannels_def analyzeChannels_def fs_analyzeStep_eq [abs_def])
  show "fs_detectCSVFormat hs =
       (if ftype (detectCSVFormat hs) = ''digilent'' \<or> ftype (detectCSVFormat hs) = ''raw''
        then \<lparr>format = ''Unknown'', ftype = ''unknown''\<rparr>
        else detectCSVFormat hs)"
    by (simp add: fs_detectCSVFormat_def detectCSVFormat_def Let_def)
  show "fs_detectProtocol chs =
       (if protocol (detectProtocol chs) = ''Parallel/Unknown''
           \<or> protocol (detectProtocol chs) = ''Unknown''
        then \<lparr>protocol = ''UART/Serial'', confidence = ''Medium'', pins = [''TX'', ''RX'']\<rparr>
        else detectProtocol chs)"
    by (simp add: fs_detectProtocol_def detectProtocol_def Let_def)
qed

theorem variants_agreement_witness:
  "fs_detectCSVFormat [''tick'', ''d0''] = \<lparr>format = ''Unknown'', ftype = ''unknown''\<rparr>
   \<and> fs_detectProtocol [] =
       \<lparr>protocol = ''UART/Serial'', confidence = ''Medium'', pins = [''TX'', ''RX'']\<rparr>"
proof -
  have f: "ftype (detectCSVFormat [''tick'', ''d0'']) = ''raw''"
    by code_simp
  have p: "protocol (detectProtocol []) = ''Unknown''"
    by code_simp
  show ?thesis
    using variants_agreement [of "[''tick'', ''d0'']" "[]" "[]"] f p by simp
qed

text \<open>
  C9, as the claim states it, fails: on the header tick, d0 the two sniffers differ, and
  on the empty profile sequence the two classifiers differ.
\<close>

theorem variants_agreement_counterexample:
  "fs_detectCSVFormat [''tick'', ''d0''] \<noteq> detectCSVFormat [''tick'', ''d0'']
   \<and> fs_detectProtocol [] \<noteq> detectProtocol []"
  by code_simp

end
